theory Spec2Isabelle
  imports Main "HOL-Library.Word"
begin

section \<open>Data model of the agent (agent.go)\<close>

text \<open>
  \<^verbatim>\<open>type Service string\<close> and \<^verbatim>\<open>type Services []Service\<close>. A Go \<^verbatim>\<open>error\<close> value is
  represented by its message.
\<close>

type_synonym Service = string
type_synonym Services = "Service list"
type_synonym error = string

text \<open>
  \<^verbatim>\<open>log.Panic\<close> (and a failed type assertion) unwinds the calling goroutine,
  \<^verbatim>\<open>log.Fatal\<close> exits the process. Neither lets the calling function return.
\<close>

datatype abort = Panic error | Fatal error

text \<open>The fields of the container engine's records that the agent reads or writes.\<close>

record Port =
  PrivatePort :: "16 word"
  PublicPort :: "16 word"

record Container =
  c_ID :: string
  c_Image :: string
  c_Names :: "string list"
  c_Labels :: "(string \<times> string) list"
  c_Ports :: "Port list"

record Config =
  cfg_Image :: string
  cfg_Labels :: "(string \<times> string) list"
  cfg_Env :: "string list"

record HostConfig =
  AutoRemove :: bool
  Privileged :: bool
  Binds :: "string list"
  PublishAllPorts :: bool

datatype FilterArg = FLabel string | FName string

record KVPair =
  kv_Key :: string
  kv_Value :: string

text \<open>
  The value of \<^verbatim>\<open>map[string]interface{}\<close> that the key-value decoder returns: a nested
  map, or something that is not a map. An association list stands for a Go map; the
  first binding of a key is the one \<open>map_of\<close> sees.
\<close>

datatype jvalue = JMap "(string \<times> jvalue) list" | JLeaf string

datatype ValueType = NotExist | String | Number | Object | Array | Boolean | Null | Unknown

datatype PullResult = PullErr error | PullReadErr error | PullOk

text \<open>What the agent does to the outside world, in the order it does it.\<close>

datatype event =
    CallStartService Service
  | CallStopService Service
  | CallConfigureService Service
  | EvLog string
  | EvContainerList "FilterArg list"
  | EvImagePull string
  | EvContainerCreate Config HostConfig string
  | EvContainerStart string
  | EvContainerStop string
  | EvKVList string
  | EvDial string
  | EvConfigure string string

text \<open>
  The external collaborators, over an arbitrary state \<open>'w\<close> of the outside world:
  the container engine, the key-value store, the decoding libraries and the
  service's control-plane RPC. \<^verbatim>\<open>InstanceID\<close> and \<^verbatim>\<open>ConfigDir\<close> are the two
  package-level settings of the process. \<open>'j\<close> is the marshalled document
  (\<^verbatim>\<open>[]byte\<close>), which the agent only hands from \<^verbatim>\<open>json.Marshal\<close> to
  \<^verbatim>\<open>jsonparser.Get\<close>.
\<close>

record ('w, 'j) env =
  InstanceID :: string
  ConfigDir :: string
  NewEnvClient :: "'w \<Rightarrow> error option"
  running_containers :: "'w \<Rightarrow> error + Container list"
  name_matches :: "string \<Rightarrow> string \<Rightarrow> bool"
  ImagePull :: "'w \<Rightarrow> string \<Rightarrow> PullResult \<times> 'w"
  ContainerCreate :: "'w \<Rightarrow> Config \<Rightarrow> HostConfig \<Rightarrow> string \<Rightarrow> (error + string) \<times> 'w"
  ContainerStart :: "'w \<Rightarrow> string \<Rightarrow> error option \<times> 'w"
  ContainerStop :: "'w \<Rightarrow> string \<Rightarrow> error option \<times> 'w"
  NewConsulClient :: "'w \<Rightarrow> error option"
  KVList :: "'w \<Rightarrow> string \<Rightarrow> error + KVPair list"
  ConsulKVsToJSON :: "KVPair list \<Rightarrow> error + (string \<times> jvalue) list"
  json_Marshal :: "(string \<times> jvalue) list \<Rightarrow> error + 'j"
  jsonparser_Get :: "'j \<Rightarrow> string list \<Rightarrow> string \<times> ValueType \<times> error option"
  grpc_Dial :: "'w \<Rightarrow> string \<Rightarrow> error option"
  Configure :: "'w \<Rightarrow> string \<Rightarrow> string \<Rightarrow> error option \<times> 'w"

text \<open>The state the agent's functions thread: the world, the package-level flag, the trace.\<close>

record 'w state =
  world :: 'w
  HandlingServices :: bool
  trace :: "event list"

text \<open>
  A function either returns a value, or is abandoned by a panic or an exit; in both
  cases the state reached so far is kept.
\<close>

type_synonym ('w, 'a) result = "(abort \<times> 'w state) + ('a \<times> 'w state)"

definition final :: "('w, 'a) result \<Rightarrow> 'w state" where
  "final r = (case r of Inl (a, st) \<Rightarrow> st | Inr (x, st) \<Rightarrow> st)"

definition returned :: "('w, 'a) result \<Rightarrow> bool" where
  "returned r = (case r of Inl _ \<Rightarrow> False | Inr _ \<Rightarrow> True)"

definition result_value :: "('w, 'a) result \<Rightarrow> 'a option" where
  "result_value r = (case r of Inl _ \<Rightarrow> None | Inr (x, st) \<Rightarrow> Some x)"

definition emit :: "event list \<Rightarrow> 'w state \<Rightarrow> 'w state" where
  "emit es st = st\<lparr>trace := trace st @ es\<rparr>"

definition managed_label :: string where
  "managed_label = ''com.opencopilot.managed''"

definition service_manager_label :: string where
  "service_manager_label = ''com.opencopilot.service-manager''"

definition container_name :: "Service \<Rightarrow> string" where
  "container_name service = ''com.opencopilot.service-manager.'' @ service"

section \<open>The container engine's listing\<close>

text \<open>
  \<^verbatim>\<open>ContainerList\<close> with filters: a \<^verbatim>\<open>label\<close> filter given a bare key keeps the
  containers that carry the key, a \<^verbatim>\<open>name\<close> filter keeps those one of whose names the
  engine matches against the pattern; all filters must hold.
\<close>

fun filter_ok :: "('w, 'j) env \<Rightarrow> Container \<Rightarrow> FilterArg \<Rightarrow> bool" where
  "filter_ok env c (FLabel k) = (map_of (c_Labels c) k \<noteq> None)"
| "filter_ok env c (FName p) = list_ex (name_matches env p) (c_Names c)"

definition ContainerList :: "('w, 'j) env \<Rightarrow> 'w \<Rightarrow> FilterArg list \<Rightarrow> error + Container list" where
  "ContainerList env w args =
     (case running_containers env w of
        Inl e \<Rightarrow> Inl e
      | Inr cs \<Rightarrow> Inr (filter (\<lambda>c. list_all (filter_ok env c) args) cs))"

section \<open>getLocalServices\<close>

fun localServices_loop :: "Container list \<Rightarrow> Services \<Rightarrow> Services" where
  "localServices_loop [] localServices = localServices"
| "localServices_loop (c # cs) localServices =
     (case map_of (c_Labels c) service_manager_label of
        None \<Rightarrow> localServices_loop cs localServices
      | Some serviceName \<Rightarrow> localServices_loop cs (localServices @ [serviceName]))"

definition getLocalServices :: "('w, 'j) env \<Rightarrow> 'w state \<Rightarrow> ('w, error + Services) result" where
  "getLocalServices env st =
     (case NewEnvClient env (world st) of
        Some e \<Rightarrow> Inr (Inl e, st)
      | None \<Rightarrow>
          (case ContainerList env (world st) [FLabel managed_label] of
             Inl e \<Rightarrow> Inl (Panic e, st)
           | Inr containers \<Rightarrow>
               Inr (Inr (localServices_loop containers []),
                    emit [EvContainerList [FLabel managed_label]] st)))"

section \<open>startService and stopService\<close>

definition containerConfig_of :: "Service \<Rightarrow> Config option" where
  "containerConfig_of service =
     (if service = ''LB''
      then Some \<lparr>cfg_Image = ''quay.io/opencopilot/haproxy-manager'',
                 cfg_Labels = [(managed_label, ''''), (service_manager_label, service)],
                 cfg_Env = []\<rparr>
      else None)"

definition hostConfig :: "('w, 'j) env \<Rightarrow> HostConfig" where
  "hostConfig env =
     \<lparr>AutoRemove = True, Privileged = True,
      Binds = [''/var/run/docker.sock:/var/run/docker.sock'', ConfigDir env @ '':'' @ ConfigDir env],
      PublishAllPorts = True\<rparr>"

definition startService :: "('w, 'j) env \<Rightarrow> Service \<Rightarrow> 'w state \<Rightarrow> ('w, error option) result" where
  "startService env service st =
     (let st0 = emit [CallStartService service, EvLog (''adding service: '' @ service)] st in
      case NewEnvClient env (world st0) of
        Some e \<Rightarrow> Inr (Some e, st0)
      | None \<Rightarrow>
          (case containerConfig_of service of
             None \<Rightarrow> Inr (Some ''Invalid service specified'', st0)
           | Some containerConfig \<Rightarrow>
               (case ImagePull env (world st0) (cfg_Image containerConfig) of
                  (PullErr e, w1) \<Rightarrow>
                    Inr (Some e, emit [EvImagePull (cfg_Image containerConfig)] (st0\<lparr>world := w1\<rparr>))
                | (PullReadErr e, w1) \<Rightarrow>
                    Inl (Panic e, emit [EvImagePull (cfg_Image containerConfig)] (st0\<lparr>world := w1\<rparr>))
                | (PullOk, w1) \<Rightarrow>
                    (let st1 = emit [EvImagePull (cfg_Image containerConfig)] (st0\<lparr>world := w1\<rparr>);
                         cfg = containerConfig\<lparr>cfg_Env :=
                                 [''CONFIG_DIR='' @ ConfigDir env, ''INSTANCE_ID='' @ InstanceID env]\<rparr>;
                         name = container_name service
                     in case ContainerCreate env w1 cfg (hostConfig env) name of
                          (Inl e, w2) \<Rightarrow>
                            Inr (Some e, emit [EvContainerCreate cfg (hostConfig env) name] (st1\<lparr>world := w2\<rparr>))
                        | (Inr res_ID, w2) \<Rightarrow>
                            (let st2 = emit [EvContainerCreate cfg (hostConfig env) name] (st1\<lparr>world := w2\<rparr>)
                             in case ContainerStart env w2 res_ID of
                                  (startErr, w3) \<Rightarrow>
                                    Inr (startErr, emit [EvContainerStart res_ID] (st2\<lparr>world := w3\<rparr>)))))))"

fun stop_loop :: "('w, 'j) env \<Rightarrow> Container list \<Rightarrow> 'w state \<Rightarrow> 'w state" where
  "stop_loop env [] st = st"
| "stop_loop env (c # cs) st =
     (case ContainerStop env (world st) (c_ID c) of
        (_, w') \<Rightarrow> stop_loop env cs (emit [EvContainerStop (c_ID c)] (st\<lparr>world := w'\<rparr>)))"

definition service_filters :: "Service \<Rightarrow> FilterArg list" where
  "service_filters service = [FLabel managed_label, FName (container_name service)]"

definition stopService :: "('w, 'j) env \<Rightarrow> Service \<Rightarrow> 'w state \<Rightarrow> ('w, error option) result" where
  "stopService env service st =
     (let st0 = emit [CallStopService service, EvLog (''stopping service: '' @ service)] st in
      case NewEnvClient env (world st0) of
        Some e \<Rightarrow> Inr (Some e, st0)
      | None \<Rightarrow>
          (case ContainerList env (world st0) (service_filters service) of
             Inl e \<Rightarrow> Inl (Fatal e, st0)
           | Inr containers \<Rightarrow>
               Inr (None, stop_loop env containers (emit [EvContainerList (service_filters service)] st0))))"

section \<open>ensureServices\<close>

text \<open>The inner loops: the flag is set whenever an equal element is met, and never reset.\<close>

fun exists_loop :: "Service \<Rightarrow> Services \<Rightarrow> bool \<Rightarrow> bool" where
  "exists_loop s [] found = found"
| "exists_loop s (x # xs) found = exists_loop s xs (if s = x then True else found)"

definition log_err :: "error option \<Rightarrow> 'w state \<Rightarrow> 'w state" where
  "log_err r st = (case r of None \<Rightarrow> st | Some e \<Rightarrow> emit [EvLog e] st)"

text \<open>
  The outer loops. When the inner loop found the element, the source executes
  \<^verbatim>\<open>break\<close>, which leaves the outer loop.
\<close>

fun start_missing :: "('w, 'j) env \<Rightarrow> Services \<Rightarrow> Services \<Rightarrow> 'w state \<Rightarrow> ('w, unit) result" where
  "start_missing env localServices [] st = Inr ((), st)"
| "start_missing env localServices (incomingService # rest) st =
     (if exists_loop incomingService localServices False then Inr ((), st)
      else (case startService env incomingService st of
              Inl a \<Rightarrow> Inl a
            | Inr (err, st') \<Rightarrow> start_missing env localServices rest (log_err err st')))"

fun stop_extra :: "('w, 'j) env \<Rightarrow> Services \<Rightarrow> Services \<Rightarrow> 'w state \<Rightarrow> ('w, unit) result" where
  "stop_extra env incomingServices [] st = Inr ((), st)"
| "stop_extra env incomingServices (localService # rest) st =
     (if exists_loop localService incomingServices False then Inr ((), st)
      else (case stopService env localService st of
              Inl a \<Rightarrow> Inl a
            | Inr (err, st') \<Rightarrow> stop_extra env incomingServices rest (log_err err st')))"

definition ensureServices :: "('w, 'j) env \<Rightarrow> Services \<Rightarrow> 'w state \<Rightarrow> ('w, unit) result" where
  "ensureServices env incomingServices st =
     (case getLocalServices env st of
        Inl a \<Rightarrow> Inl a
      | Inr (Inl e, st1) \<Rightarrow> Inl (Panic e, st1)
      | Inr (Inr localServices, st1) \<Rightarrow>
          (case start_missing env localServices incomingServices st1 of
             Inl a \<Rightarrow> Inl a
           | Inr (_, st2) \<Rightarrow> stop_extra env incomingServices localServices st2))"

section \<open>configureService and configureServices\<close>

text \<open>\<^verbatim>\<open>strconv.Itoa\<close> on a value that is never negative: the decimal digits.\<close>

fun Itoa :: "nat \<Rightarrow> string" where
  "Itoa n = (if n < 10 then [char_of (48 + n)] else Itoa (n div 10) @ [char_of (48 + n mod 10)])"

declare Itoa.simps [simp del]

text \<open>
  The port loop starts from the zero value of \<^verbatim>\<open>uint16\<close> and keeps the public port
  of the last pair whose private port is 50052.
\<close>

fun port_loop :: "Port list \<Rightarrow> 16 word \<Rightarrow> 16 word" where
  "port_loop [] gRPCPort = gRPCPort"
| "port_loop (portPair # rest) gRPCPort =
     port_loop rest (if PrivatePort portPair = 50052 then PublicPort portPair else gRPCPort)"

definition service_path :: "('w, 'j) env \<Rightarrow> Service \<Rightarrow> string" where
  "service_path env service = ''instances/'' @ InstanceID env @ ''/services/'' @ service"

text \<open>
  The body of the loop over the service's containers. \<open>Inr (Some e)\<close> is the
  \<^verbatim>\<open>return errConfiguring\<close> inside the loop, \<open>Inr None\<close> the \<^verbatim>\<open>return nil\<close> after it.
\<close>

fun configure_loop :: "('w, 'j) env \<Rightarrow> Service \<Rightarrow> Container list \<Rightarrow> 'w state \<Rightarrow> ('w, error option) result" where
  "configure_loop env service [] st = Inr (None, st)"
| "configure_loop env service (c # cs) st =
     (let gRPCPort = port_loop (c_Ports c) 0 in
      case KVList env (world st) (service_path env service) of
        Inl e \<Rightarrow> Inl (Fatal e, st)
      | Inr kvs \<Rightarrow>
          (let st1 = emit [EvKVList (service_path env service)] st in
           case ConsulKVsToJSON env kvs of
             Inl e \<Rightarrow> Inl (Fatal e, st1)
           | Inr configMap \<Rightarrow>
               (case json_Marshal env configMap of
                  Inl e \<Rightarrow> Inl (Fatal e, st1)
                | Inr configString \<Rightarrow>
                    (case jsonparser_Get env configString
                            [''instances'', InstanceID env, ''services'', service] of
                       (serviceConfig, dataType, Some e) \<Rightarrow> Inl (Fatal e, st1)
                     | (serviceConfig, dataType, None) \<Rightarrow>
                         (let st2 = (if dataType = NotExist then emit [EvLog ''invalid JSON''] st1 else st1);
                              target = ''localhost:'' @ Itoa (unat gRPCPort)
                          in case grpc_Dial env (world st2) target of
                               Some e \<Rightarrow> Inl (Fatal (''fail to dial: '' @ e), emit [EvDial target] st2)
                             | None \<Rightarrow>
                                 (case Configure env (world st2) target serviceConfig of
                                    (Some errConfiguring, w') \<Rightarrow>
                                      Inr (Some errConfiguring,
                                           emit [EvDial target, EvConfigure target serviceConfig]
                                             (st2\<lparr>world := w'\<rparr>))
                                  | (None, w') \<Rightarrow>
                                      configure_loop env service cs
                                        (emit [EvDial target, EvConfigure target serviceConfig]
                                           (st2\<lparr>world := w'\<rparr>))))))))"

definition configureService :: "('w, 'j) env \<Rightarrow> Service \<Rightarrow> 'w state \<Rightarrow> ('w, error option) result" where
  "configureService env service st =
     (let st0 = emit [CallConfigureService service] st in
      case NewEnvClient env (world st0) of
        Some e \<Rightarrow> Inr (Some e, st0)
      | None \<Rightarrow>
          (case ContainerList env (world st0) (service_filters service) of
             Inl e \<Rightarrow> Inl (Fatal e, st0)
           | Inr containers \<Rightarrow>
               (case NewConsulClient env (world st0) of
                  Some e \<Rightarrow> Inl (Fatal e, emit [EvContainerList (service_filters service)] st0)
                | None \<Rightarrow>
                    configure_loop env service containers
                      (emit [EvContainerList (service_filters service)] st0))))"

fun configureServices :: "('w, 'j) env \<Rightarrow> Services \<Rightarrow> error list \<Rightarrow> 'w state \<Rightarrow> ('w, error list) result" where
  "configureServices env [] errorList st = Inr (errorList, st)"
| "configureServices env (service # rest) errorList st =
     (case configureService env service st of
        Inl a \<Rightarrow> Inl a
      | Inr (None, st') \<Rightarrow> configureServices env rest errorList st'
      | Inr (Some err, st') \<Rightarrow> configureServices env rest (errorList @ [err]) st')"

section \<open>ConfigHandler\<close>

text \<open>
  \<^verbatim>\<open>m[k].(mt)\<close>: the value under the key, asserted to be a map; a missing key gives
  the nil interface, on which the assertion panics as it does on a value of another type.
\<close>

definition assert_map :: "(string \<times> jvalue) list \<Rightarrow> string \<Rightarrow> abort + (string \<times> jvalue) list" where
  "assert_map m k =
     (case map_of m k of
        Some (JMap m') \<Rightarrow> Inr m'
      | _ \<Rightarrow> Inl (Panic ''interface conversion''))"

text \<open>\<^verbatim>\<open>for s := range servicesMap\<close>: each key of the map once.\<close>

definition range_keys :: "(string \<times> jvalue) list \<Rightarrow> Services" where
  "range_keys servicesMap = remdups (map fst servicesMap)"

text \<open>\<^verbatim>\<open>m["instances"].(mt)[InstanceID].(mt)["services"].(mt)\<close>\<close>

definition servicesMap_of :: "('w, 'j) env \<Rightarrow> (string \<times> jvalue) list \<Rightarrow> abort + (string \<times> jvalue) list" where
  "servicesMap_of env m =
     (case assert_map m ''instances'' of
        Inl a \<Rightarrow> Inl a
      | Inr m1 \<Rightarrow>
          (case assert_map m1 (InstanceID env) of
             Inl a \<Rightarrow> Inl a
           | Inr m2 \<Rightarrow> assert_map m2 ''services''))"

definition ConfigHandler :: "('w, 'j) env \<Rightarrow> KVPair list \<Rightarrow> 'w state \<Rightarrow> ('w, unit) result" where
  "ConfigHandler env kvs st =
     (let st0 = st\<lparr>HandlingServices := True\<rparr> in
      case ConsulKVsToJSON env kvs of
        Inl e \<Rightarrow> Inl (Panic e, st0)
      | Inr m \<Rightarrow>
          (case json_Marshal env m of
             Inl e \<Rightarrow> Inl (Panic e, st0)
           | Inr jsonString \<Rightarrow>
               (case jsonparser_Get env jsonString [''instances'', InstanceID env, ''services''] of
                  (_, valueType, err) \<Rightarrow>
                    if valueType = NotExist then ensureServices env [] st0
                    else (case err of
                            Some e \<Rightarrow> Inl (Fatal e, st0)
                          | None \<Rightarrow>
                              (case servicesMap_of env m of
                                 Inl a \<Rightarrow> Inl (a, st0)
                               | Inr servicesMap \<Rightarrow>
                                   (case ensureServices env (range_keys servicesMap) st0 of
                                      Inl a \<Rightarrow> Inl a
                                    | Inr (_, st1) \<Rightarrow>
                                        (case getLocalServices env st1 of
                                           Inl a \<Rightarrow> Inl a
                                         | Inr (Inl e, st2) \<Rightarrow> Inl (Fatal e, st2)
                                         | Inr (Inr localServices, st2) \<Rightarrow>
                                             (case configureServices env localServices [] st2 of
                                                Inl a \<Rightarrow> Inl a
                                              | Inr (_, st3) \<Rightarrow>
                                                  Inr ((), st3\<lparr>HandlingServices := False\<rparr>)))))))))"

section \<open>Reading the trace\<close>

fun start_call :: "event \<Rightarrow> Services" where
  "start_call (CallStartService s) = [s]"
| "start_call _ = []"

fun stop_call :: "event \<Rightarrow> Services" where
  "stop_call (CallStopService s) = [s]"
| "stop_call _ = []"

fun configure_call :: "event \<Rightarrow> Services" where
  "configure_call (CallConfigureService s) = [s]"
| "configure_call _ = []"

definition start_calls :: "event list \<Rightarrow> Services" where
  "start_calls tr = concat (map start_call tr)"

definition stop_calls :: "event list \<Rightarrow> Services" where
  "stop_calls tr = concat (map stop_call tr)"

definition configure_calls :: "event list \<Rightarrow> Services" where
  "configure_calls tr = concat (map configure_call tr)"

fun is_engine_write :: "event \<Rightarrow> bool" where
  "is_engine_write (EvImagePull _) = True"
| "is_engine_write (EvContainerCreate _ _ _) = True"
| "is_engine_write (EvContainerStart _) = True"
| "is_engine_write (EvContainerStop _) = True"
| "is_engine_write _ = False"

fun is_rpc :: "event \<Rightarrow> bool" where
  "is_rpc (EvDial _) = True"
| "is_rpc (EvConfigure _ _) = True"
| "is_rpc _ = False"

fun stopped_id :: "event \<Rightarrow> string list" where
  "stopped_id (EvContainerStop i) = [i]"
| "stopped_id _ = []"

definition stopped_ids :: "event list \<Rightarrow> string list" where
  "stopped_ids tr = concat (map stopped_id tr)"

fun created :: "event \<Rightarrow> (Config \<times> HostConfig \<times> string) list" where
  "created (EvContainerCreate cfg hc name) = [(cfg, hc, name)]"
| "created _ = []"

definition creates :: "event list \<Rightarrow> (Config \<times> HostConfig \<times> string) list" where
  "creates tr = concat (map created tr)"

section \<open>A small concrete runtime\<close>

text \<open>
  One instance of the collaborators, on which the model can be run: the engine keeps
  the running and the created containers, creating a container records it under its
  name, starting it moves it to the running ones with its control port published,
  stopping it removes it unless its identifier is listed as refusing to stop. The
  store is a list of pairs; the decoder nests them along the \<open>/\<close> of their keys, and
  the marshalled document is the nested map itself. No service listens on port 0.
\<close>

record sim_world =
  sw_running :: "Container list"
  sw_created :: "Container list"
  sw_store :: "KVPair list"
  sw_unstoppable :: "string list"

fun split_path :: "string \<Rightarrow> string \<Rightarrow> string list" where
  "split_path [] cur = (if cur = [] then [] else [cur])"
| "split_path (c # cs) cur =
     (if c = CHR ''/'' then (if cur = [] then split_path cs [] else cur # split_path cs [])
      else split_path cs (cur @ [c]))"

definition put :: "string \<Rightarrow> jvalue \<Rightarrow> (string \<times> jvalue) list \<Rightarrow> (string \<times> jvalue) list" where
  "put k v m = (if map_of m k = None then m @ [(k, v)]
                else map (\<lambda>p. if fst p = k then (k, v) else p) m)"

fun insert_path :: "string list \<Rightarrow> string \<Rightarrow> (string \<times> jvalue) list \<Rightarrow> (string \<times> jvalue) list" where
  "insert_path [] v m = m"
| "insert_path [k] v m = put k (JLeaf v) m"
| "insert_path (k # ks) v m =
     put k (JMap (insert_path ks v (case map_of m k of Some (JMap m') \<Rightarrow> m' | _ \<Rightarrow> []))) m"

definition sim_decode :: "KVPair list \<Rightarrow> (string \<times> jvalue) list" where
  "sim_decode kvs = foldl (\<lambda>m kv. insert_path (split_path (kv_Key kv) []) (kv_Value kv) m) [] kvs"

fun walk :: "jvalue \<Rightarrow> string list \<Rightarrow> jvalue option" where
  "walk v [] = Some v"
| "walk (JLeaf s) (k # ks) = None"
| "walk (JMap m) (k # ks) = (case map_of m k of None \<Rightarrow> None | Some v \<Rightarrow> walk v ks)"

fun join_commas :: "string list \<Rightarrow> string" where
  "join_commas [] = []"
| "join_commas [x] = x"
| "join_commas (x # xs) = x @ '','' @ join_commas xs"

fun render :: "jvalue \<Rightarrow> string" where
  "render (JLeaf s) = CHR 0x22 # s @ [CHR 0x22]"
| "render (JMap m) =
     ''{'' @ join_commas (map (\<lambda>p. CHR 0x22 # fst p @ [CHR 0x22] @ '':'' @ render (snd p)) m) @ ''}''"

definition sim_Get :: "(string \<times> jvalue) list \<Rightarrow> string list \<Rightarrow> string \<times> ValueType \<times> error option" where
  "sim_Get doc keys =
     (case walk (JMap doc) keys of
        None \<Rightarrow> ([], NotExist, Some ''Key path not found'')
      | Some (JLeaf s) \<Rightarrow> (s, String, None)
      | Some (JMap m) \<Rightarrow> (render (JMap m), Object, None))"

definition sim_create :: "sim_world \<Rightarrow> Config \<Rightarrow> HostConfig \<Rightarrow> string \<Rightarrow> (error + string) \<times> sim_world" where
  "sim_create w cfg hc name =
     (if list_ex (\<lambda>c. name \<in> set (c_Names c)) (sw_running w @ sw_created w)
      then (Inl ''Conflict: the container name is already in use'', w)
      else (Inr name,
            w\<lparr>sw_created := sw_created w @
                 [\<lparr>c_ID = name, c_Image = cfg_Image cfg, c_Names = [name], c_Labels = cfg_Labels cfg,
                   c_Ports = (if PublishAllPorts hc then [\<lparr>PrivatePort = 50052, PublicPort = 32768\<rparr>] else [])\<rparr>]\<rparr>))"

definition sim_start :: "sim_world \<Rightarrow> string \<Rightarrow> error option \<times> sim_world" where
  "sim_start w i =
     (if list_ex (\<lambda>c. c_ID c = i) (sw_created w)
      then (None, w\<lparr>sw_running := sw_running w @ filter (\<lambda>c. c_ID c = i) (sw_created w),
                     sw_created := filter (\<lambda>c. c_ID c \<noteq> i) (sw_created w)\<rparr>)
      else (Some ''No such container'', w))"

definition sim_stop :: "sim_world \<Rightarrow> string \<Rightarrow> error option \<times> sim_world" where
  "sim_stop w i =
     (if i \<in> set (sw_unstoppable w) then (Some ''cannot stop container'', w)
      else (None, w\<lparr>sw_running := filter (\<lambda>c. c_ID c \<noteq> i) (sw_running w)\<rparr>))"

definition sim_env :: "(sim_world, (string \<times> jvalue) list) env" where
  "sim_env =
     \<lparr>InstanceID = ''i-1'',
      ConfigDir = ''/etc/opencopilot'',
      NewEnvClient = (\<lambda>w. None),
      running_containers = (\<lambda>w. Inr (sw_running w)),
      name_matches = (\<lambda>p n. p = n),
      ImagePull = (\<lambda>w image. (PullOk, w)),
      ContainerCreate = sim_create,
      ContainerStart = sim_start,
      ContainerStop = sim_stop,
      NewConsulClient = (\<lambda>w. None),
      KVList = (\<lambda>w prefix. Inr (filter (\<lambda>kv. take (length prefix) (kv_Key kv) = prefix) (sw_store w))),
      ConsulKVsToJSON = (\<lambda>kvs. Inr (sim_decode kvs)),
      json_Marshal = (\<lambda>m. Inr m),
      jsonparser_Get = sim_Get,
      grpc_Dial = (\<lambda>w target. None),
      Configure = (\<lambda>w target config.
                     if target = ''localhost:0'' then (Some ''connection refused'', w) else (None, w))\<rparr>"

definition sim_container :: "string \<Rightarrow> string \<Rightarrow> (string \<times> string) list \<Rightarrow> Port list \<Rightarrow> Container" where
  "sim_container i name labels ports =
     \<lparr>c_ID = i, c_Image = ''quay.io/opencopilot/haproxy-manager'', c_Names = [name],
      c_Labels = labels, c_Ports = ports\<rparr>"

definition sim_state :: "Container list \<Rightarrow> KVPair list \<Rightarrow> sim_world state" where
  "sim_state cs kvs =
     \<lparr>world = \<lparr>sw_running = cs, sw_created = [], sw_store = kvs, sw_unstoppable = []\<rparr>,
      HandlingServices = False, trace = []\<rparr>"

text \<open>Fixtures: the container the agent itself would start for \<open>LB\<close>, and its settings in the store.\<close>

definition lb :: Container where
  "lb = sim_container ''c1'' (container_name ''LB'')
          [(managed_label, []), (service_manager_label, ''LB'')]
          [\<lparr>PrivatePort = 50052, PublicPort = 32768\<rparr>]"

definition lb_kvs :: "KVPair list" where
  "lb_kvs = [\<lparr>kv_Key = ''instances/i-1/services/LB/port'', kv_Value = ''80''\<rparr>]"

text \<open>A second managed service container, which no desired set below asks for.\<close>

definition db :: Container where
  "db = sim_container ''c2'' (container_name ''db'')
          [(managed_label, []), (service_manager_label, ''db'')] []"

text \<open>A world in which the engine fails to stop the \<open>LB\<close> container.\<close>

definition stuck :: "sim_world state" where
  "stuck = \<lparr>world = \<lparr>sw_running = [lb], sw_created = [], sw_store = [], sw_unstoppable = [''c1'']\<rparr>,
            HandlingServices = False, trace = []\<rparr>"

text \<open>
  Containers the agent must ignore: one without the managed label, and one with the
  managed label but without the service-manager label.
\<close>

definition foreign :: Container where
  "foreign = sim_container ''c3'' ''postgres'' [(service_manager_label, ''db'')] []"

definition unnamed :: Container where
  "unnamed = sim_container ''c4'' ''helper'' [(managed_label, [])] []"

text \<open>The \<open>LB\<close> container with a published port, but none for the control port 50052.\<close>

definition lb_no_control_port :: Container where
  "lb_no_control_port = sim_container ''c1'' (container_name ''LB'')
          [(managed_label, []), (service_manager_label, ''LB'')]
          [\<lparr>PrivatePort = 80, PublicPort = 32769\<rparr>]"

section \<open>Stopping a service, as the specification words it\<close>

text \<open>
  The specification's \<open>stop(service)\<close>: list the containers matching the managed label
  and the deterministic name of the service, and stop each found. When the client
  cannot be constructed or the listing fails, the engine is left as it is.
\<close>

definition stop_matching :: "('w, 'j) env \<Rightarrow> Service \<Rightarrow> 'w \<Rightarrow> 'w" where
  "stop_matching env service w =
     (case NewEnvClient env w of
        Some e \<Rightarrow> w
      | None \<Rightarrow>
          (case running_containers env w of
             Inl e \<Rightarrow> w
           | Inr cs \<Rightarrow>
               foldl (\<lambda>w' c. snd (ContainerStop env w' (c_ID c))) w
                 (filter (\<lambda>c. map_of (c_Labels c) managed_label \<noteq> None \<and>
                              list_ex (name_matches env (container_name service)) (c_Names c)) cs)))"

section \<open>What each operation adds to the trace\<close>

lemma exists_loop_iff: "exists_loop s xs found = (found \<or> s \<in> set xs)"
  by (induction xs arbitrary: found) auto

lemma start_calls_simps [simp]:
  "start_calls [] = []"
  "start_calls (e # tr) = start_call e @ start_calls tr"
  "start_calls (tr @ tr') = start_calls tr @ start_calls tr'"
  by (simp_all add: start_calls_def)

lemma stop_calls_simps [simp]:
  "stop_calls [] = []"
  "stop_calls (e # tr) = stop_call e @ stop_calls tr"
  "stop_calls (tr @ tr') = stop_calls tr @ stop_calls tr'"
  by (simp_all add: stop_calls_def)

lemma configure_calls_simps [simp]:
  "configure_calls [] = []"
  "configure_calls (e # tr) = configure_call e @ configure_calls tr"
  "configure_calls (tr @ tr') = configure_calls tr @ configure_calls tr'"
  by (simp_all add: configure_calls_def)

lemma stopped_ids_simps [simp]:
  "stopped_ids [] = []"
  "stopped_ids (e # tr) = stopped_id e @ stopped_ids tr"
  "stopped_ids (tr @ tr') = stopped_ids tr @ stopped_ids tr'"
  by (simp_all add: stopped_ids_def)

lemma emit_simps [simp]:
  "trace (emit es st) = trace st @ es"
  "world (emit es st) = world st"
  "HandlingServices (emit es st) = HandlingServices st"
  by (simp_all add: emit_def)

lemma final_simps [simp]:
  "final (Inl (a, st)) = st"
  "final (Inr (x, st)) = st"
  by (simp_all add: final_def)

lemma log_err_simps [simp]:
  "world (log_err r st) = world st"
  "HandlingServices (log_err r st) = HandlingServices st"
  "start_calls (trace (log_err r st)) = start_calls (trace st)"
  "stop_calls (trace (log_err r st)) = stop_calls (trace st)"
  "configure_calls (trace (log_err r st)) = configure_calls (trace st)"
  by (simp_all add: log_err_def split: option.splits)

lemma getLocalServices_effect:
  "world (final (getLocalServices env st)) = world st"
  "HandlingServices (final (getLocalServices env st)) = HandlingServices st"
  "start_calls (trace (final (getLocalServices env st))) = start_calls (trace st)"
  "stop_calls (trace (final (getLocalServices env st))) = stop_calls (trace st)"
  "configure_calls (trace (final (getLocalServices env st))) = configure_calls (trace st)"
  by (auto simp: getLocalServices_def split: option.splits sum.splits)

lemma startService_effect:
  "HandlingServices (final (startService env s st)) = HandlingServices st"
  "start_calls (trace (final (startService env s st))) = start_calls (trace st) @ [s]"
  "stop_calls (trace (final (startService env s st))) = stop_calls (trace st)"
  "configure_calls (trace (final (startService env s st))) = configure_calls (trace st)"
  by (auto simp: startService_def Let_def split: option.splits sum.splits prod.splits PullResult.splits)

lemma stop_loop_effect:
  "HandlingServices (stop_loop env cs st) = HandlingServices st"
  "trace (stop_loop env cs st) = trace st @ map (\<lambda>c. EvContainerStop (c_ID c)) cs"
  by (induction cs arbitrary: st) (auto split: prod.splits)

lemma calls_map_stop [simp]:
  "start_calls (map (\<lambda>c. EvContainerStop (f c)) cs) = []"
  "stop_calls (map (\<lambda>c. EvContainerStop (f c)) cs) = []"
  "configure_calls (map (\<lambda>c. EvContainerStop (f c)) cs) = []"
  "stopped_ids (map (\<lambda>c. EvContainerStop (f c)) cs) = map f cs"
  by (induction cs) auto

lemma stopService_effect:
  "HandlingServices (final (stopService env s st)) = HandlingServices st"
  "start_calls (trace (final (stopService env s st))) = start_calls (trace st)"
  "stop_calls (trace (final (stopService env s st))) = stop_calls (trace st) @ [s]"
  "configure_calls (trace (final (stopService env s st))) = configure_calls (trace st)"
  by (auto simp: stopService_def Let_def stop_loop_effect split: option.splits sum.splits)

lemma start_missing_returns:
  assumes "start_missing env localServices incoming st = Inr (u, st')"
  shows "HandlingServices st' = HandlingServices st \<and>
    start_calls (trace st') = start_calls (trace st) @ takeWhile (\<lambda>s. s \<notin> set localServices) incoming \<and>
    stop_calls (trace st') = stop_calls (trace st) \<and>
    configure_calls (trace st') = configure_calls (trace st)"
  using assms
proof (induction incoming arbitrary: st)
  case Nil
  then show ?case by simp
next
  case (Cons s rest)
  show ?case
  proof (cases "s \<in> set localServices")
    case True
    with Cons.prems show ?thesis by (simp add: exists_loop_iff)
  next
    case False
    with Cons.prems obtain r st1 where
      s1: "startService env s st = Inr (r, st1)" and
      s2: "start_missing env localServices rest (log_err r st1) = Inr (u, st')"
      by (auto simp: exists_loop_iff split: sum.splits)
    from startService_effect [of env s st] s1
    have "HandlingServices st1 = HandlingServices st"
      "start_calls (trace st1) = start_calls (trace st) @ [s]"
      "stop_calls (trace st1) = stop_calls (trace st)"
      "configure_calls (trace st1) = configure_calls (trace st)"
      by simp_all
    with Cons.IH [OF s2] False show ?thesis by simp
  qed
qed

lemma stop_extra_returns:
  assumes "stop_extra env incoming localServices st = Inr (u, st')"
  shows "HandlingServices st' = HandlingServices st \<and>
    start_calls (trace st') = start_calls (trace st) \<and>
    stop_calls (trace st') = stop_calls (trace st) @ takeWhile (\<lambda>s. s \<notin> set incoming) localServices \<and>
    configure_calls (trace st') = configure_calls (trace st)"
  using assms
proof (induction localServices arbitrary: st)
  case Nil
  then show ?case by simp
next
  case (Cons s rest)
  show ?case
  proof (cases "s \<in> set incoming")
    case True
    with Cons.prems show ?thesis by (simp add: exists_loop_iff)
  next
    case False
    with Cons.prems obtain r st1 where
      s1: "stopService env s st = Inr (r, st1)" and
      s2: "stop_extra env incoming rest (log_err r st1) = Inr (u, st')"
      by (auto simp: exists_loop_iff split: sum.splits)
    from stopService_effect [of env s st] s1
    have "HandlingServices st1 = HandlingServices st"
      "start_calls (trace st1) = start_calls (trace st)"
      "stop_calls (trace st1) = stop_calls (trace st) @ [s]"
      "configure_calls (trace st1) = configure_calls (trace st)"
      by simp_all
    with Cons.IH [OF s2] False show ?thesis by simp
  qed
qed

lemma ensureServices_returns:
  assumes "ensureServices env incoming st = Inr (u, st')"
  shows "\<exists>localServices st1.
    getLocalServices env st = Inr (Inr localServices, st1) \<and>
    HandlingServices st' = HandlingServices st \<and>
    start_calls (trace st') = start_calls (trace st) @ takeWhile (\<lambda>s. s \<notin> set localServices) incoming \<and>
    stop_calls (trace st') = stop_calls (trace st) @ takeWhile (\<lambda>s. s \<notin> set incoming) localServices \<and>
    configure_calls (trace st') = configure_calls (trace st)"
proof -
  from assms obtain localServices st1 u2 st2 where
    g: "getLocalServices env st = Inr (Inr localServices, st1)" and
    a: "start_missing env localServices incoming st1 = Inr (u2, st2)" and
    b: "stop_extra env incoming localServices st2 = Inr (u, st')"
    by (auto simp: ensureServices_def split: sum.splits)
  from getLocalServices_effect [of env st] g
  have "HandlingServices st1 = HandlingServices st"
    "start_calls (trace st1) = start_calls (trace st)"
    "stop_calls (trace st1) = stop_calls (trace st)"
    "configure_calls (trace st1) = configure_calls (trace st)"
    by simp_all
  with start_missing_returns [OF a] stop_extra_returns [OF b] g
  show ?thesis by simp
qed

lemma getLocalServices_world:
  assumes "getLocalServices env st = Inr (Inr A, st1)" and "world st2 = world st"
  shows "getLocalServices env st2 = Inr (Inr A, emit [EvContainerList [FLabel managed_label]] st2)"
  using assms by (auto simp: getLocalServices_def split: option.splits sum.splits)

lemma start_missing_converged:
  "set incoming \<subseteq> set localServices \<Longrightarrow> start_missing env localServices incoming st = Inr ((), st)"
  by (cases incoming) (auto simp: exists_loop_iff)

lemma stop_extra_converged:
  "set localServices \<subseteq> set incoming \<Longrightarrow> stop_extra env incoming localServices st = Inr ((), st)"
  by (cases localServices) (auto simp: exists_loop_iff)

lemma ensureServices_converged:
  assumes "getLocalServices env st = Inr (Inr A, st1)" and "set D = set A"
  shows "ensureServices env D st = Inr ((), emit [EvContainerList [FLabel managed_label]] st)"
proof -
  from assms(1) have "st1 = emit [EvContainerList [FLabel managed_label]] st"
    by (auto simp: getLocalServices_def split: option.splits sum.splits)
  with assms show ?thesis
    by (simp add: ensureServices_def start_missing_converged stop_extra_converged)
qed

lemma sim_state_simps [simp]:
  "trace (sim_state cs kvs) = []"
  "HandlingServices (sim_state cs kvs) = False"
  "world (sim_state cs kvs) = \<lparr>sw_running = cs, sw_created = [], sw_store = kvs, sw_unstoppable = []\<rparr>"
  by (simp_all add: sim_state_def)

lemma sim_lb_listing:
  "getLocalServices sim_env (sim_state [lb] kvs) =
     Inr (Inr [''LB''], emit [EvContainerList [FLabel managed_label]] (sim_state [lb] kvs))"
  by (simp add: getLocalServices_def sim_env_def sim_state_def ContainerList_def lb_def
      sim_container_def managed_label_def service_manager_label_def)

section \<open>Idempotence of a reconciliation pass\<close>

text \<open>
  C2. When the desired services and the services the engine reports are the same set
  of names, \<open>ensureServices\<close> returns having invoked neither \<open>startService\<close> nor
  \<open>stopService\<close> and having written nothing to the engine; the world is unchanged,
  and a second pass on the state it leaves does the same.
\<close>

theorem reconcile_idempotent:
  assumes "getLocalServices env st = Inr (Inr A, st1)" and "set D = set A"
  shows "\<exists>st' st''. ensureServices env D st = Inr ((), st') \<and>
           world st' = world st \<and>
           start_calls (trace st') = start_calls (trace st) \<and>
           stop_calls (trace st') = stop_calls (trace st) \<and>
           filter is_engine_write (trace st') = filter is_engine_write (trace st) \<and>
           ensureServices env D st' = Inr ((), st'') \<and>
           world st'' = world st \<and>
           start_calls (trace st'') = start_calls (trace st) \<and>
           stop_calls (trace st'') = stop_calls (trace st) \<and>
           filter is_engine_write (trace st'') = filter is_engine_write (trace st)"
proof -
  let ?l = "[EvContainerList [FLabel managed_label]]"
  have 1: "ensureServices env D st = Inr ((), emit ?l st)"
    using assms by (rule ensureServices_converged)
  have "getLocalServices env (emit ?l st) = Inr (Inr A, emit ?l (emit ?l st))"
    using assms(1) by (rule getLocalServices_world) simp
  then have 2: "ensureServices env D (emit ?l st) = Inr ((), emit ?l (emit ?l st))"
    using assms(2) by (rule ensureServices_converged)
  from 1 2 show ?thesis by simp
qed

theorem reconcile_idempotent_witness:
  "set [''LB''] = set [''LB''] \<and>
   (\<exists>st' st''. ensureServices sim_env [''LB''] (sim_state [lb] []) = Inr ((), st') \<and>
      start_calls (trace st') = [] \<and> stop_calls (trace st') = [] \<and>
      ensureServices sim_env [''LB''] st' = Inr ((), st'') \<and>
      start_calls (trace st'') = [] \<and> stop_calls (trace st'') = [])"
  using reconcile_idempotent [OF sim_lb_listing, of "[''LB'']" "[]"]
  by auto

section \<open>A pass that does not converge\<close>

text \<open>
  C1. One pass is claimed to call \<open>startService\<close> for every desired service that is
  not running and \<open>stopService\<close> for every running service that is not desired.
  With \<open>LB\<close> and \<open>web\<close> desired while \<open>LB\<close> and \<open>db\<close> run, the pass
  returns having called neither: each outer loop is left at \<open>LB\<close>, its first element.
\<close>

theorem ensureServices_breaks_early:
  "returned (ensureServices sim_env [''LB'', ''web''] (sim_state [lb, db] [])) \<and>
   start_calls (trace (final (ensureServices sim_env [''LB'', ''web''] (sim_state [lb, db] [])))) = [] \<and>
   stop_calls (trace (final (ensureServices sim_env [''LB'', ''web''] (sim_state [lb, db] [])))) = []"
  by code_simp

section \<open>Unsupported service names\<close>

text \<open>
  C5. For every service name other than \<open>LB\<close>, \<open>startService\<close> returns an error
  (the error of the client construction if that fails, otherwise
  \<open>Invalid service specified\<close>); it only logs: the world is unchanged and no image
  pull, container creation or container start is added to the trace.
\<close>

theorem startService_unsupported:
  assumes "service \<noteq> ''LB''"
  shows "\<exists>e st'. startService env service st = Inr (Some e, st') \<and>
           (NewEnvClient env (world st) = None \<longrightarrow> e = ''Invalid service specified'') \<and>
           world st' = world st \<and>
           trace st' = trace st @ [CallStartService service, EvLog (''adding service: '' @ service)] \<and>
           filter is_engine_write (trace st') = filter is_engine_write (trace st)"
proof (cases "NewEnvClient env (world st)")
  case None
  with assms show ?thesis
    by (simp add: startService_def containerConfig_of_def Let_def)
next
  case (Some e)
  then show ?thesis
    by (simp add: startService_def Let_def)
qed

theorem startService_unsupported_witness:
  "''web'' \<noteq> ''LB'' \<and>
   (\<exists>st'. startService sim_env ''web'' (sim_state [] []) =
            Inr (Some ''Invalid service specified'', st') \<and>
          world st' = world (sim_state [] []) \<and>
          filter is_engine_write (trace st') = [])"
proof -
  have h: "''web'' \<noteq> ''LB''" by simp
  have n: "NewEnvClient sim_env (world (sim_state [] [])) = None" by (simp add: sim_env_def)
  from startService_unsupported [OF h, of sim_env "sim_state [] []"] n h
  show ?thesis by auto
qed

section \<open>The flag after the handler returned\<close>

text \<open>
  C9. \<open>HandlingServices\<close> is claimed to be false again on every path by which
  \<open>ConfigHandler\<close> returns. On a listing without the services subtree the handler
  returns, and the flag is still true.
\<close>

theorem ConfigHandler_leaves_flag_set:
  "returned (ConfigHandler sim_env [] (sim_state [lb] [])) \<and>
   HandlingServices (final (ConfigHandler sim_env [] (sim_state [lb] [])))"
  by code_simp

section \<open>Stop failures are not reported\<close>

text \<open>
  C10. Whenever the client is constructed and the container listing succeeds,
  \<open>stopService\<close> returns nil, whatever the engine answers to the stop requests: it
  asks the engine to stop each listed container that matches the managed label and
  the service's name, and when none matches it leaves the world as it was and writes
  nothing to the engine.
\<close>

theorem stopService_returns_nil:
  assumes "NewEnvClient env (world st) = None" and "running_containers env (world st) = Inr cs"
  shows "\<exists>st'. stopService env service st = Inr (None, st') \<and>
           stopped_ids (trace st') = stopped_ids (trace st) @
             map c_ID (filter (\<lambda>c. list_all (filter_ok env c) (service_filters service)) cs) \<and>
           (filter (\<lambda>c. list_all (filter_ok env c) (service_filters service)) cs = [] \<longrightarrow>
              world st' = world st \<and>
              filter is_engine_write (trace st') = filter is_engine_write (trace st))"
  using assms
  by (simp add: stopService_def ContainerList_def stop_loop_effect)

theorem stopService_returns_nil_witness:
  "NewEnvClient sim_env (world stuck) = None \<and>
   running_containers sim_env (world stuck) = Inr [lb] \<and>
   fst (ContainerStop sim_env (world stuck) ''c1'') = Some ''cannot stop container'' \<and>
   (\<exists>st'. stopService sim_env ''LB'' stuck = Inr (None, st') \<and> stopped_ids (trace st') = [''c1''])"
proof -
  have n: "NewEnvClient sim_env (world stuck) = None" by (simp add: sim_env_def)
  have l: "running_containers sim_env (world stuck) = Inr [lb]" by (simp add: sim_env_def stuck_def)
  have f: "fst (ContainerStop sim_env (world stuck) ''c1'') = Some ''cannot stop container''"
    by (simp add: sim_env_def stuck_def sim_stop_def)
  have m: "filter (\<lambda>c. list_all (filter_ok sim_env c) (service_filters ''LB'')) [lb] = [lb]"
    by (simp add: service_filters_def lb_def sim_container_def sim_env_def container_name_def managed_label_def)
  have i: "c_ID lb = ''c1''" by (simp add: lb_def sim_container_def)
  have t: "trace stuck = []" by (simp add: stuck_def)
  from stopService_returns_nil [OF n l, of "''LB''"] n l f m i t
  show ?thesis by auto
qed

lemma creates_simps [simp]:
  "creates [] = []"
  "creates (e # tr) = created e @ creates tr"
  "creates (tr @ tr') = creates tr @ creates tr'"
  by (simp_all add: creates_def)

lemma getLocalServices_Inr:
  assumes "getLocalServices env st = Inr (Inr A, st1)"
  shows "NewEnvClient env (world st) = None" 
    and "st1 = emit [EvContainerList [FLabel managed_label]] st"
    and "\<exists>cs. running_containers env (world st) = Inr cs \<and>
           A = localServices_loop (filter (\<lambda>c. map_of (c_Labels c) managed_label \<noteq> None) cs) []"
  using assms
  by (auto simp: getLocalServices_def ContainerList_def split: option.splits sum.splits)

lemma sim_empty_listing:
  "getLocalServices sim_env (sim_state [] kvs) =
     Inr (Inr [], emit [EvContainerList [FLabel managed_label]] (sim_state [] kvs))"
  by (simp add: getLocalServices_def sim_env_def ContainerList_def)

section \<open>Starting the load balancer\<close>

text \<open>
  C6. With \<open>LB\<close> desired and no managed service running, the pass calls
  \<open>startService\<close> exactly once, for \<open>LB\<close>, and calls \<open>stopService\<close> not at all.
  When the image pull succeeds the pass returns having asked the engine for exactly
  one container, named \<open>com.opencopilot.service-manager.LB\<close>, whose labels carry
  the managed label and the service-manager label with value \<open>LB\<close>, whose
  environment holds \<open>CONFIG_DIR\<close> and \<open>INSTANCE_ID\<close> set to the process's
  settings, and which publishes all ports, is removed when stopped and is privileged.
  The world the pass leaves is the one the engine answers: that of the creation
  request after the pull when the creation fails, and otherwise that of starting the
  container the creation returned; these three are the only writes to the engine.
\<close>

theorem start_LB_scenario:
  assumes "getLocalServices env st = Inr (Inr [], st1)"
  shows "start_calls (trace (final (ensureServices env [''LB''] st))) = start_calls (trace st) @ [''LB''] \<and>
         stop_calls (trace (final (ensureServices env [''LB''] st))) = stop_calls (trace st) \<and>
         (fst (ImagePull env (world st) ''quay.io/opencopilot/haproxy-manager'') = PullOk \<longrightarrow>
            (\<exists>cfg hc. returned (ensureServices env [''LB''] st) \<and>
               creates (trace (final (ensureServices env [''LB''] st))) =
                 creates (trace st) @ [(cfg, hc, ''com.opencopilot.service-manager.LB'')] \<and>
               map_of (cfg_Labels cfg) ''com.opencopilot.managed'' \<noteq> None \<and>
               map_of (cfg_Labels cfg) ''com.opencopilot.service-manager'' = Some ''LB'' \<and>
               ''CONFIG_DIR='' @ ConfigDir env \<in> set (cfg_Env cfg) \<and>
               ''INSTANCE_ID='' @ InstanceID env \<in> set (cfg_Env cfg) \<and>
               PublishAllPorts hc \<and> AutoRemove hc \<and> Privileged hc \<and>
               cfg = \<lparr>cfg_Image = ''quay.io/opencopilot/haproxy-manager'',
                      cfg_Labels = [(''com.opencopilot.managed'', []),
                                    (''com.opencopilot.service-manager'', ''LB'')],
                      cfg_Env = [''CONFIG_DIR='' @ ConfigDir env, ''INSTANCE_ID='' @ InstanceID env]\<rparr> \<and>
               hc = \<lparr>AutoRemove = True, Privileged = True,
                     Binds = [''/var/run/docker.sock:/var/run/docker.sock'',
                              ConfigDir env @ '':'' @ ConfigDir env],
                     PublishAllPorts = True\<rparr> \<and>
               world (final (ensureServices env [''LB''] st)) =
                 (case ContainerCreate env
                         (snd (ImagePull env (world st) ''quay.io/opencopilot/haproxy-manager''))
                         cfg hc ''com.opencopilot.service-manager.LB'' of
                    (Inl e, w2) \<Rightarrow> w2
                  | (Inr res_ID, w2) \<Rightarrow> snd (ContainerStart env w2 res_ID)) \<and>
               filter is_engine_write (trace (final (ensureServices env [''LB''] st))) =
                 filter is_engine_write (trace st) @
                 [EvImagePull ''quay.io/opencopilot/haproxy-manager'',
                  EvContainerCreate cfg hc ''com.opencopilot.service-manager.LB''] @
                 (case fst (ContainerCreate env
                              (snd (ImagePull env (world st) ''quay.io/opencopilot/haproxy-manager''))
                              cfg hc ''com.opencopilot.service-manager.LB'') of
                    Inl e \<Rightarrow> []
                  | Inr res_ID \<Rightarrow> [EvContainerStart res_ID])))"
proof -
  let ?st1 = "emit [EvContainerList [FLabel managed_label]] st"
  let ?r = "ensureServices env [''LB''] st"
  let ?img = "''quay.io/opencopilot/haproxy-manager''"
  let ?name = "''com.opencopilot.service-manager.LB''"
  let ?cfg = "\<lparr>cfg_Image = ?img,
                cfg_Labels = [(''com.opencopilot.managed'', []),
                              (''com.opencopilot.service-manager'', ''LB'')],
                cfg_Env = [''CONFIG_DIR='' @ ConfigDir env, ''INSTANCE_ID='' @ InstanceID env]\<rparr>"
  let ?hc = "\<lparr>AutoRemove = True, Privileged = True,
               Binds = [''/var/run/docker.sock:/var/run/docker.sock'',
                        ConfigDir env @ '':'' @ ConfigDir env],
               PublishAllPorts = True\<rparr>"
  from getLocalServices_Inr [OF assms]
  have n: "NewEnvClient env (world st) = None" and s: "st1 = ?st1" by simp_all
  have e: "?r =
      (case startService env ''LB'' ?st1 of
         Inl a \<Rightarrow> Inl a
       | Inr (err, st') \<Rightarrow> Inr ((), log_err err st'))"
    using assms s by (simp add: ensureServices_def split: sum.splits)
  have c: "start_calls (trace (final ?r)) = start_calls (trace st) @ [''LB'']"
    "stop_calls (trace (final ?r)) = stop_calls (trace st)"
    using startService_effect [of env "''LB''" ?st1]
    by (auto simp: e split: sum.splits)
  have p: "returned ?r \<and>
           creates (trace (final ?r)) = creates (trace st) @ [(?cfg, ?hc, ?name)] \<and>
           world (final ?r) =
             (case ContainerCreate env (snd (ImagePull env (world st) ?img)) ?cfg ?hc ?name of
                (Inl e, w2) \<Rightarrow> w2
              | (Inr res_ID, w2) \<Rightarrow> snd (ContainerStart env w2 res_ID)) \<and>
           filter is_engine_write (trace (final ?r)) =
             filter is_engine_write (trace st) @
             [EvImagePull ?img, EvContainerCreate ?cfg ?hc ?name] @
             (case fst (ContainerCreate env (snd (ImagePull env (world st) ?img)) ?cfg ?hc ?name) of
                Inl e \<Rightarrow> []
              | Inr res_ID \<Rightarrow> [EvContainerStart res_ID])"
    if ok: "fst (ImagePull env (world st) ?img) = PullOk"
  proof -
    from ok obtain w1 where pl: "ImagePull env (world st) ?img = (PullOk, w1)"
      by (cases "ImagePull env (world st) ?img") simp
    obtain cr w2 where cr: "ContainerCreate env w1 ?cfg ?hc ?name = (cr, w2)"
      by (cases "ContainerCreate env w1 ?cfg ?hc ?name") simp
    show ?thesis
    proof (cases cr)
      case (Inl err)
      with n pl cr show ?thesis
        by (simp add: e startService_def containerConfig_of_def Let_def log_err_def returned_def
            hostConfig_def container_name_def managed_label_def service_manager_label_def)
    next
      case (Inr res_ID)
      obtain r w3 where "ContainerStart env w2 res_ID = (r, w3)"
        by (cases "ContainerStart env w2 res_ID") simp
      with Inr n pl cr show ?thesis
        by (cases r)
          (simp_all add: e startService_def containerConfig_of_def Let_def log_err_def returned_def
            hostConfig_def container_name_def managed_label_def service_manager_label_def)
    qed
  qed
  have q: "map_of (cfg_Labels ?cfg) ''com.opencopilot.managed'' \<noteq> None \<and>
           map_of (cfg_Labels ?cfg) ''com.opencopilot.service-manager'' = Some ''LB'' \<and>
           ''CONFIG_DIR='' @ ConfigDir env \<in> set (cfg_Env ?cfg) \<and>
           ''INSTANCE_ID='' @ InstanceID env \<in> set (cfg_Env ?cfg) \<and>
           PublishAllPorts ?hc \<and> AutoRemove ?hc \<and> Privileged ?hc"
    by simp
  show ?thesis
  proof (intro conjI impI)
    assume ok: "fst (ImagePull env (world st) ?img) = PullOk"
    from p [OF ok] q
    show "\<exists>cfg hc. returned ?r \<and>
               creates (trace (final ?r)) = creates (trace st) @ [(cfg, hc, ?name)] \<and>
               map_of (cfg_Labels cfg) ''com.opencopilot.managed'' \<noteq> None \<and>
               map_of (cfg_Labels cfg) ''com.opencopilot.service-manager'' = Some ''LB'' \<and>
               ''CONFIG_DIR='' @ ConfigDir env \<in> set (cfg_Env cfg) \<and>
               ''INSTANCE_ID='' @ InstanceID env \<in> set (cfg_Env cfg) \<and>
               PublishAllPorts hc \<and> AutoRemove hc \<and> Privileged hc \<and>
               cfg = ?cfg \<and> hc = ?hc \<and>
               world (final ?r) =
                 (case ContainerCreate env (snd (ImagePull env (world st) ?img)) cfg hc ?name of
                    (Inl e, w2) \<Rightarrow> w2
                  | (Inr res_ID, w2) \<Rightarrow> snd (ContainerStart env w2 res_ID)) \<and>
               filter is_engine_write (trace (final ?r)) =
                 filter is_engine_write (trace st) @
                 [EvImagePull ?img, EvContainerCreate cfg hc ?name] @
                 (case fst (ContainerCreate env (snd (ImagePull env (world st) ?img)) cfg hc ?name) of
                    Inl e \<Rightarrow> []
                  | Inr res_ID \<Rightarrow> [EvContainerStart res_ID])"
      by (intro exI [of _ ?cfg] exI [of _ ?hc]) blast
  qed (rule c)+
qed

theorem start_LB_scenario_witness:
  "fst (ImagePull sim_env (world (sim_state [] [])) ''quay.io/opencopilot/haproxy-manager'') = PullOk \<and>
   start_calls (trace (final (ensureServices sim_env [''LB''] (sim_state [] [])))) = [''LB''] \<and>
   stop_calls (trace (final (ensureServices sim_env [''LB''] (sim_state [] [])))) = [] \<and>
   (\<exists>cfg hc. creates (trace (final (ensureServices sim_env [''LB''] (sim_state [] [])))) =
        [(cfg, hc, ''com.opencopilot.service-manager.LB'')] \<and>
      ''CONFIG_DIR=/etc/opencopilot'' \<in> set (cfg_Env cfg) \<and>
      ''INSTANCE_ID=i-1'' \<in> set (cfg_Env cfg) \<and> PublishAllPorts hc) \<and>
   map c_Names (sw_running (world (final (ensureServices sim_env [''LB''] (sim_state [] []))))) =
     [[''com.opencopilot.service-manager.LB'']]"
proof -
  have p: "fst (ImagePull sim_env (world (sim_state [] [])) ''quay.io/opencopilot/haproxy-manager'') = PullOk"
    by (simp add: sim_env_def)
  have d: "ConfigDir sim_env = ''/etc/opencopilot''" "InstanceID sim_env = ''i-1''"
    by (simp_all add: sim_env_def)
  have w: "\<And>cfg hc.
    map c_Names (sw_running
      (case ContainerCreate sim_env
              (snd (ImagePull sim_env (world (sim_state [] [])) ''quay.io/opencopilot/haproxy-manager''))
              cfg hc ''com.opencopilot.service-manager.LB'' of
         (Inl e, w2) \<Rightarrow> w2
       | (Inr res_ID, w2) \<Rightarrow> snd (ContainerStart sim_env w2 res_ID))) =
    [[''com.opencopilot.service-manager.LB'']]"
    by (simp add: sim_env_def sim_create_def sim_start_def)
  from start_LB_scenario [OF sim_empty_listing, of "[]"] p d w
  show ?thesis by auto
qed

lemma returned_simps [simp]:
  "returned (Inl a) = False"
  "returned (Inr x) = True"
  by (simp_all add: returned_def)

lemma stop_loop_world:
  "world (stop_loop env cs st) = foldl (\<lambda>w' c. snd (ContainerStop env w' (c_ID c))) (world st) cs"
  by (induction cs arbitrary: st) (auto split: prod.splits)

lemma stopService_world:
  "world (final (stopService env s st)) = stop_matching env s (world st)"
  by (auto simp: stopService_def stop_matching_def ContainerList_def service_filters_def
      stop_loop_world Let_def split: option.splits sum.splits)

lemma stopService_total:
  assumes "\<And>w. \<exists>cs. running_containers env w = Inr cs"
  shows "\<exists>r st'. stopService env s st = Inr (r, st')"
proof (cases "NewEnvClient env (world st)")
  case None
  from assms obtain cs where "running_containers env (world st) = Inr cs" by blast
  with None show ?thesis by (simp add: stopService_def ContainerList_def)
next
  case (Some e)
  then show ?thesis by (simp add: stopService_def Let_def)
qed

lemma stop_extra_empty_total:
  assumes "\<And>w. \<exists>cs. running_containers env w = Inr cs"
  shows "\<exists>st'. stop_extra env [] localServices st = Inr ((), st') \<and>
           world st' = foldl (\<lambda>w s. stop_matching env s w) (world st) localServices"
proof (induction localServices arbitrary: st)
  case Nil
  show ?case by simp
next
  case (Cons s rest)
  from stopService_total [OF assms] obtain r st1 where
    s1: "stopService env s st = Inr (r, st1)" by blast
  from stopService_world [of env s st] s1
  have "world st1 = stop_matching env s (world st)" by simp
  with Cons.IH [of "log_err r st1"] s1 show ?case by simp
qed

section \<open>A listing without the services subtree\<close>



lemma localServices_loop_acc:
  "localServices_loop cs acc =
     acc @ List.map_filter (\<lambda>c. map_of (c_Labels c) service_manager_label) cs"
  by (induction cs arbitrary: acc) (auto simp: List.map_filter_simps split: option.splits)

lemma localServices_loop_labelled:
  "localServices_loop (filter (\<lambda>c. map_of (c_Labels c) managed_label \<noteq> None) cs) acc =
     acc @ List.map_filter (\<lambda>c. map_of (c_Labels c) service_manager_label)
             (filter (\<lambda>c. map_of (c_Labels c) managed_label \<noteq> None \<and>
                          map_of (c_Labels c) service_manager_label \<noteq> None) cs)"
  by (induction cs arbitrary: acc) (auto simp: List.map_filter_simps split: option.splits)

lemma set_map_filter:
  "set (List.map_filter f xs) = {y. \<exists>x \<in> set xs. f x = Some y}"
  by (induction xs) (auto simp: List.map_filter_simps split: option.splits)

lemma start_missing_stops:
  "stop_calls (trace (final (start_missing env localServices incoming st))) = stop_calls (trace st)"
proof (induction incoming arbitrary: st)
  case Nil
  show ?case by simp
next
  case (Cons s rest)
  show ?case
  proof (cases "startService env s st")
    case (Inl a)
    with startService_effect(3) [of env s st] show ?thesis by (cases a) auto
  next
    case (Inr b)
    obtain r st1 where b: "b = (r, st1)" by (cases b)
    from startService_effect(3) [of env s st] Inr b
    have "stop_calls (trace st1) = stop_calls (trace st)" by simp
    with Cons.IH [of "log_err r st1"] Inr b show ?thesis by simp
  qed
qed

lemma stop_extra_stops:
  "\<exists>xs. stop_calls (trace (final (stop_extra env incoming localServices st))) = stop_calls (trace st) @ xs \<and>
        set xs \<subseteq> set localServices"
proof (induction localServices arbitrary: st)
  case Nil
  show ?case by simp
next
  case (Cons s rest)
  show ?case
  proof (cases "exists_loop s incoming False")
    case True
    then show ?thesis by simp
  next
    case False
    show ?thesis
    proof (cases "stopService env s st")
      case (Inl a)
      with stopService_effect(3) [of env s st] False show ?thesis by (cases a) auto
    next
      case (Inr b)
      obtain r st1 where b: "b = (r, st1)" by (cases b)
      from stopService_effect(3) [of env s st] Inr b
      have 1: "stop_calls (trace st1) = stop_calls (trace st) @ [s]" by simp
      from Cons.IH [of "log_err r st1"] obtain xs where
        "stop_calls (trace (final (stop_extra env incoming rest (log_err r st1)))) =
           stop_calls (trace (log_err r st1)) @ xs" "set xs \<subseteq> set rest"
        by blast
      with 1 Inr b False
      have "stop_calls (trace (final (stop_extra env incoming (s # rest) st))) =
              stop_calls (trace st) @ (s # xs) \<and> set (s # xs) \<subseteq> set (s # rest)"
        by auto
      then show ?thesis by blast
    qed
  qed
qed

lemma ensureServices_stops:
  assumes "running_containers env (world st) = Inr cs"
  shows "\<exists>xs. stop_calls (trace (final (ensureServices env D st))) = stop_calls (trace st) @ xs \<and>
           set xs \<subseteq> set (localServices_loop (filter (\<lambda>c. map_of (c_Labels c) managed_label \<noteq> None) cs) [])"
proof (cases "getLocalServices env st")
  case (Inl a)
  with getLocalServices_effect(4) [of env st] show ?thesis
    by (cases a) (auto simp: ensureServices_def)
next
  case (Inr b)
  obtain r st1 where b: "b = (r, st1)" by (cases b)
  from getLocalServices_effect(4) [of env st] Inr b
  have 1: "stop_calls (trace st1) = stop_calls (trace st)" by simp
  show ?thesis
  proof (cases r)
    case (Inl e)
    with Inr b 1 show ?thesis by (simp add: ensureServices_def)
  next
    case A: (Inr A)
    from getLocalServices_Inr(3) [of env st A st1] Inr b A assms
    have a: "A = localServices_loop (filter (\<lambda>c. map_of (c_Labels c) managed_label \<noteq> None) cs) []"
      by simp
    show ?thesis
    proof (cases "start_missing env A D st1")
      case (Inl x)
      with start_missing_stops [of env A D st1] 1 Inr b A show ?thesis
        by (cases x) (auto simp: ensureServices_def)
    next
      case (Inr y)
      obtain u st2 where y: "y = (u, st2)" by (cases y)
      from start_missing_stops [of env A D st1] Inr y 1
      have 2: "stop_calls (trace st2) = stop_calls (trace st)" by simp
      from stop_extra_stops [of env D A st2] 2 a
      have "\<exists>xs. stop_calls (trace (final (stop_extra env D A st2))) = stop_calls (trace st) @ xs \<and>
           set xs \<subseteq> set (localServices_loop (filter (\<lambda>c. map_of (c_Labels c) managed_label \<noteq> None) cs) [])"
        by simp
      with Inr y \<open>getLocalServices env st = Inr b\<close> b A show ?thesis
        by (simp add: ensureServices_def)
    qed
  qed
qed

section \<open>Containers that are not the agent's\<close>

text \<open>
  C4. Let the engine report the running containers \<open>cs\<close>. The services that
  \<open>getLocalServices\<close> returns are exactly the service-manager labels, in listing order,
  of the containers that carry both the managed label and the service-manager label:
  a container lacking either label contributes nothing. Every service passed to
  \<open>stopService\<close> in a reconciliation pass, however the pass ends, is the
  service-manager label of such a container. And the stop requests that
  \<open>stopService\<close> sends to the engine go only to listed containers that carry the
  managed label.
\<close>

theorem unlabelled_containers_ignored:
  assumes "running_containers env (world st) = Inr cs"
  shows "(\<forall>A st1. getLocalServices env st = Inr (Inr A, st1) \<longrightarrow>
            A = List.map_filter (\<lambda>c. map_of (c_Labels c) service_manager_label)
                  (filter (\<lambda>c. map_of (c_Labels c) managed_label \<noteq> None \<and>
                               map_of (c_Labels c) service_manager_label \<noteq> None) cs)) \<and>
         (\<forall>D. \<exists>xs. stop_calls (trace (final (ensureServices env D st))) = stop_calls (trace st) @ xs \<and>
            (\<forall>s \<in> set xs. \<exists>c \<in> set cs. map_of (c_Labels c) managed_label \<noteq> None \<and>
                                       map_of (c_Labels c) service_manager_label = Some s)) \<and>
         (\<forall>s. \<exists>ys. stopped_ids (trace (final (stopService env s st))) = stopped_ids (trace st) @ map c_ID ys \<and>
            world (final (stopService env s st)) =
              foldl (\<lambda>w c. snd (ContainerStop env w (c_ID c))) (world st) ys \<and>
            (\<forall>c \<in> set ys. c \<in> set cs \<and> map_of (c_Labels c) managed_label \<noteq> None))"
proof (intro conjI allI impI)
  fix A st1
  assume "getLocalServices env st = Inr (Inr A, st1)"
  from getLocalServices_Inr(3) [OF this] assms
  have "A = localServices_loop (filter (\<lambda>c. map_of (c_Labels c) managed_label \<noteq> None) cs) []"
    by simp
  then show "A = List.map_filter (\<lambda>c. map_of (c_Labels c) service_manager_label)
                  (filter (\<lambda>c. map_of (c_Labels c) managed_label \<noteq> None \<and>
                               map_of (c_Labels c) service_manager_label \<noteq> None) cs)"
    by (subst (asm) localServices_loop_labelled) simp
next
  fix D
  from ensureServices_stops [OF assms, of D] obtain xs where
    x: "stop_calls (trace (final (ensureServices env D st))) = stop_calls (trace st) @ xs"
    and s: "set xs \<subseteq> set (localServices_loop (filter (\<lambda>c. map_of (c_Labels c) managed_label \<noteq> None) cs) [])"
    by blast
  from s have "\<forall>s \<in> set xs. \<exists>c \<in> set cs. map_of (c_Labels c) managed_label \<noteq> None \<and>
                                       map_of (c_Labels c) service_manager_label = Some s"
    by (fastforce simp: localServices_loop_acc set_map_filter)
  with x show "\<exists>xs. stop_calls (trace (final (ensureServices env D st))) = stop_calls (trace st) @ xs \<and>
            (\<forall>s \<in> set xs. \<exists>c \<in> set cs. map_of (c_Labels c) managed_label \<noteq> None \<and>
                                       map_of (c_Labels c) service_manager_label = Some s)"
    by blast
next
  fix s
  show "\<exists>ys. stopped_ids (trace (final (stopService env s st))) = stopped_ids (trace st) @ map c_ID ys \<and>
            world (final (stopService env s st)) =
              foldl (\<lambda>w c. snd (ContainerStop env w (c_ID c))) (world st) ys \<and>
            (\<forall>c \<in> set ys. c \<in> set cs \<and> map_of (c_Labels c) managed_label \<noteq> None)"
  proof (cases "NewEnvClient env (world st)")
    case None
    with assms show ?thesis
      by (intro exI [of _ "filter (\<lambda>c. list_all (filter_ok env c) (service_filters s)) cs"])
        (simp add: stopService_def ContainerList_def stop_loop_effect stop_loop_world service_filters_def)
  next
    case (Some e)
    then show ?thesis
      by (intro exI [of _ "[]"]) (simp add: stopService_def Let_def)
  qed
qed

theorem unlabelled_containers_ignored_witness:
  "running_containers sim_env (world (sim_state [foreign, lb, unnamed] [])) = Inr [foreign, lb, unnamed] \<and>
   map_of (c_Labels foreign) managed_label = None \<and>
   map_of (c_Labels unnamed) service_manager_label = None \<and>
   getLocalServices sim_env (sim_state [foreign, lb, unnamed] []) =
     Inr (Inr [''LB''], emit [EvContainerList [FLabel managed_label]] (sim_state [foreign, lb, unnamed] [])) \<and>
   stop_calls (trace (final (ensureServices sim_env [] (sim_state [foreign, lb, unnamed] [])))) = [''LB'']"
proof -
  let ?st = "sim_state [foreign, lb, unnamed] []"
  have r: "running_containers sim_env (world ?st) = Inr [foreign, lb, unnamed]"
    by (simp add: sim_env_def)
  have f: "map_of (c_Labels foreign) managed_label = None"
    by (simp add: foreign_def sim_container_def managed_label_def service_manager_label_def)
  have u: "map_of (c_Labels unnamed) service_manager_label = None"
    by (simp add: unnamed_def sim_container_def managed_label_def service_manager_label_def)
  have l: "map_of (c_Labels lb) managed_label \<noteq> None"
    "map_of (c_Labels lb) service_manager_label = Some ''LB''"
    "map_of (c_Labels foreign) service_manager_label = Some ''db''"
    "map_of (c_Labels unnamed) managed_label \<noteq> None"
    by (simp_all add: lb_def foreign_def unnamed_def sim_container_def managed_label_def service_manager_label_def)
  have "\<exists>A st1. getLocalServices sim_env ?st = Inr (Inr A, st1)"
    by (simp add: getLocalServices_def sim_env_def ContainerList_def)
  then obtain A st1 where g: "getLocalServices sim_env ?st = Inr (Inr A, st1)" by blast
  from unlabelled_containers_ignored [OF r] g f u l
  have a: "A = [''LB'']" by (simp add: List.map_filter_simps)
  from getLocalServices_Inr(2) [OF g] g a
  have g': "getLocalServices sim_env ?st = Inr (Inr [''LB''], emit [EvContainerList [FLabel managed_label]] ?st)"
    by simp
  have s: "stop_calls (trace (final (ensureServices sim_env [] ?st))) = [''LB'']"
    by code_simp
  from r f u g' s show ?thesis by blast
qed

lemma port_loop_no_control_port:
  "\<forall>p \<in> set ports. PrivatePort p \<noteq> 50052 \<Longrightarrow> port_loop ports gRPCPort = gRPCPort"
  by (induction ports arbitrary: gRPCPort) auto

lemma Itoa_zero: "Itoa 0 = ''0''"
  by code_simp

section \<open>A container without a published control port\<close>

text \<open>
  C7, as claimed: for a container of the service with no mapping for the internal port
  50052, \<open>configureService\<close> performs no RPC call and reports no error. It fails on
  the \<open>LB\<close> container publishing only port 80: the service's configuration is
  fetched, \<open>localhost:0\<close> is dialled and \<open>Configure\<close> is called there, and the
  error of that call is returned.
\<close>

theorem configureService_no_skip_counterexample:
  "map PrivatePort (c_Ports lb_no_control_port) = [80] \<and>
   filter is_rpc (trace (final (configureService sim_env ''LB'' (sim_state [lb_no_control_port] lb_kvs)))) =
     [EvDial ''localhost:0'', EvConfigure ''localhost:0'' (render (JMap [(''port'', JLeaf ''80'')]))] \<and>
   result_value (configureService sim_env ''LB'' (sim_state [lb_no_control_port] lb_kvs)) =
     Some (Some ''connection refused'')"
  by code_simp

text \<open>
  C7, amended. The source has no check for a missing control port: the port variable
  keeps the zero value of \<open>uint16\<close>. So when the first listed container of the
  service has no mapping for the internal port 50052 and the service's configuration
  is fetched and decoded without error, \<open>configureService\<close> dials \<open>localhost:0\<close> and
  calls \<open>Configure\<close> there with the service's configuration; the world becomes the
  one that call leaves; an error of the call is returned to the caller at once, and
  otherwise the loop goes on with the remaining containers.
\<close>

theorem configureService_without_control_port:
  assumes ports: "\<forall>p \<in> set (c_Ports c). PrivatePort p \<noteq> 50052"
    and client: "NewEnvClient env (world st) = None"
    and listing: "ContainerList env (world st) (service_filters service) = Inr (c # cs)"
    and consul: "NewConsulClient env (world st) = None"
    and kv: "KVList env (world st) (service_path env service) = Inr kvs"
    and dec: "ConsulKVsToJSON env kvs = Inr configMap"
    and mar: "json_Marshal env configMap = Inr configString"
    and get: "jsonparser_Get env configString [''instances'', InstanceID env, ''services'', service] =
                (serviceConfig, dataType, None)"
    and dial: "grpc_Dial env (world st) ''localhost:0'' = None"
  shows "port_loop (c_Ports c) 0 = 0 \<and>
         (\<exists>st2. world st2 = snd (Configure env (world st) ''localhost:0'' serviceConfig) \<and>
            HandlingServices st2 = HandlingServices st \<and>
            trace st2 =
              trace st @
              [CallConfigureService service, EvContainerList (service_filters service),
               EvKVList (service_path env service)] @
              (if dataType = NotExist then [EvLog ''invalid JSON''] else []) @
              [EvDial ''localhost:0'', EvConfigure ''localhost:0'' serviceConfig] \<and>
            configureService env service st =
              (case fst (Configure env (world st) ''localhost:0'' serviceConfig) of
                 Some errConfiguring \<Rightarrow> Inr (Some errConfiguring, st2)
               | None \<Rightarrow> configure_loop env service cs st2))"
proof -
  have p: "port_loop (c_Ports c) 0 = 0"
    using ports by (rule port_loop_no_control_port)
  obtain r w' where c: "Configure env (world st) ''localhost:0'' serviceConfig = (r, w')"
    by (cases "Configure env (world st) ''localhost:0'' serviceConfig") simp
  let ?st1 = "emit [EvKVList (service_path env service)]
                (emit [EvContainerList (service_filters service)]
                   (emit [CallConfigureService service] st))"
  let ?st2 = "emit [EvDial ''localhost:0'', EvConfigure ''localhost:0'' serviceConfig]
                ((if dataType = NotExist then emit [EvLog ''invalid JSON''] ?st1 else ?st1)\<lparr>world := w'\<rparr>)"
  have "configureService env service st =
          (case r of Some errConfiguring \<Rightarrow> Inr (Some errConfiguring, ?st2)
           | None \<Rightarrow> configure_loop env service cs ?st2)"
    using client listing consul kv dec mar get dial c p
    by (cases r) (simp_all add: configureService_def Let_def Itoa_zero)
  moreover have "world ?st2 = snd (Configure env (world st) ''localhost:0'' serviceConfig)"
    "HandlingServices ?st2 = HandlingServices st"
    "trace ?st2 = trace st @
              [CallConfigureService service, EvContainerList (service_filters service),
               EvKVList (service_path env service)] @
              (if dataType = NotExist then [EvLog ''invalid JSON''] else []) @
              [EvDial ''localhost:0'', EvConfigure ''localhost:0'' serviceConfig]"
    using c by simp_all
  ultimately show ?thesis using p c by (intro conjI exI [of _ ?st2]) simp_all
qed

theorem configureService_without_control_port_witness:
  "map PrivatePort (c_Ports lb_no_control_port) = [80] \<and>
   ContainerList sim_env (world (sim_state [lb_no_control_port] lb_kvs)) (service_filters ''LB'') =
     Inr [lb_no_control_port] \<and>
   grpc_Dial sim_env (world (sim_state [lb_no_control_port] lb_kvs)) ''localhost:0'' = None \<and>
   fst (Configure sim_env (world (sim_state [lb_no_control_port] lb_kvs)) ''localhost:0''
          (render (JMap [(''port'', JLeaf ''80'')]))) = Some ''connection refused'' \<and>
   (\<exists>st2. configureService sim_env ''LB'' (sim_state [lb_no_control_port] lb_kvs) =
            Inr (Some ''connection refused'', st2) \<and>
          trace st2 =
            [CallConfigureService ''LB'', EvContainerList (service_filters ''LB''),
             EvKVList (service_path sim_env ''LB''),
             EvDial ''localhost:0'',
             EvConfigure ''localhost:0'' (render (JMap [(''port'', JLeaf ''80'')]))])"
proof -
  let ?st = "sim_state [lb_no_control_port] lb_kvs"
  let ?cfg = "render (JMap [(''port'', JLeaf ''80'')])"
  have ports: "\<forall>p \<in> set (c_Ports lb_no_control_port). PrivatePort p \<noteq> 50052"
    by (simp add: lb_no_control_port_def sim_container_def)
  have client: "NewEnvClient sim_env (world ?st) = None" by (simp add: sim_env_def)
  have listing: "ContainerList sim_env (world ?st) (service_filters ''LB'') = Inr (lb_no_control_port # [])"
    by (simp add: ContainerList_def sim_env_def service_filters_def lb_no_control_port_def
        sim_container_def container_name_def managed_label_def)
  have consul: "NewConsulClient sim_env (world ?st) = None" by (simp add: sim_env_def)
  have kv: "KVList sim_env (world ?st) (service_path sim_env ''LB'') = Inr lb_kvs"
    by (simp add: sim_env_def service_path_def lb_kvs_def)
  have dec: "ConsulKVsToJSON sim_env lb_kvs = Inr (sim_decode lb_kvs)" by (simp add: sim_env_def)
  have mar: "json_Marshal sim_env (sim_decode lb_kvs) = Inr (sim_decode lb_kvs)" by (simp add: sim_env_def)
  have get: "jsonparser_Get sim_env (sim_decode lb_kvs) [''instances'', InstanceID sim_env, ''services'', ''LB''] =
               (?cfg, Object, None)"
    by code_simp
  have dial: "grpc_Dial sim_env (world ?st) ''localhost:0'' = None" by (simp add: sim_env_def)
  have conf: "fst (Configure sim_env (world ?st) ''localhost:0'' ?cfg) = Some ''connection refused''"
    by (simp add: sim_env_def)
  from configureService_without_control_port [OF ports client listing consul kv dec mar get dial] conf
  have "\<exists>st2. configureService sim_env ''LB'' ?st = Inr (Some ''connection refused'', st2) \<and>
          trace st2 =
            [CallConfigureService ''LB'', EvContainerList (service_filters ''LB''),
             EvKVList (service_path sim_env ''LB''),
             EvDial ''localhost:0'', EvConfigure ''localhost:0'' ?cfg]"
    by auto
  moreover have "map PrivatePort (c_Ports lb_no_control_port) = [80]"
    by (simp add: lb_no_control_port_def sim_container_def)
  ultimately show ?thesis using listing dial conf by simp
qed

lemma configure_loop_calls:
  "configure_calls (trace (final (configure_loop env service cs st))) = configure_calls (trace st) \<and>
   start_calls (trace (final (configure_loop env service cs st))) = start_calls (trace st) \<and>
   stop_calls (trace (final (configure_loop env service cs st))) = stop_calls (trace st) \<and>
   HandlingServices (final (configure_loop env service cs st)) = HandlingServices st"
proof (induction cs arbitrary: st)
  case Nil
  show ?case by simp
next
  case (Cons c cs)
  show ?case
  proof (cases "KVList env (world st) (service_path env service)")
    case (Inl e)
    then show ?thesis by simp
  next
    case kv: (Inr kvs)
    show ?thesis
    proof (cases "ConsulKVsToJSON env kvs")
      case (Inl e)
      with kv show ?thesis by simp
    next
      case dec: (Inr configMap)
      show ?thesis
      proof (cases "json_Marshal env configMap")
        case (Inl e)
        with kv dec show ?thesis by simp
      next
        case mar: (Inr configString)
        obtain serviceConfig dataType err where
          get: "jsonparser_Get env configString [''instances'', InstanceID env, ''services'', service] =
                  (serviceConfig, dataType, err)"
          by (cases "jsonparser_Get env configString [''instances'', InstanceID env, ''services'', service]") auto
        show ?thesis
        proof (cases err)
          case (Some e)
          with kv dec mar get show ?thesis by simp
        next
          case None
          let ?target = "''localhost:'' @ Itoa (unat (port_loop (c_Ports c) 0))"
          show ?thesis
          proof (cases "grpc_Dial env (world st) ?target")
            case (Some e)
            with kv dec mar get None show ?thesis by (cases "dataType = NotExist") (simp_all add: Let_def)
          next
            case dial: None
            obtain res w' where cf: "Configure env (world st) ?target serviceConfig = (res, w')"
              by (cases "Configure env (world st) ?target serviceConfig") auto
            show ?thesis
            proof (cases res)
              case None
              with kv dec mar get \<open>err = None\<close> dial cf show ?thesis
                by (cases "dataType = NotExist") (simp_all add: Let_def Cons.IH)
            next
              case (Some e)
              with kv dec mar get \<open>err = None\<close> dial cf show ?thesis
                by (cases "dataType = NotExist") (simp_all add: Let_def)
            qed
          qed
        qed
      qed
    qed
  qed
qed

lemma configureService_effect:
  "configure_calls (trace (final (configureService env service st))) = configure_calls (trace st) @ [service]"
  "start_calls (trace (final (configureService env service st))) = start_calls (trace st)"
  "stop_calls (trace (final (configureService env service st))) = stop_calls (trace st)"
  "HandlingServices (final (configureService env service st)) = HandlingServices st"
  by (simp_all add: configureService_def Let_def configure_loop_calls split: option.splits sum.splits)

lemma configureServices_returns:
  assumes "configureServices env services errorList st = Inr (errs, st')"
  shows "configure_calls (trace st') = configure_calls (trace st) @ services \<and>
         start_calls (trace st') = start_calls (trace st) \<and>
         stop_calls (trace st') = stop_calls (trace st)"
  using assms
proof (induction services arbitrary: errorList st)
  case Nil
  then show ?case by simp
next
  case (Cons s rest)
  from Cons.prems obtain r st1 where
    c: "configureService env s st = Inr (r, st1)"
    by (cases "configureService env s st") auto
  from configureService_effect [of env s st] c have
    e: "configure_calls (trace st1) = configure_calls (trace st) @ [s]"
       "start_calls (trace st1) = start_calls (trace st)"
       "stop_calls (trace st1) = stop_calls (trace st)"
    by simp_all
  from Cons.prems c obtain errorList' where
    "configureServices env rest errorList' st1 = Inr (errs, st')"
    by (cases r) auto
  from Cons.IH [OF this] e show ?case by simp
qed

lemma configureService_delivers:
  assumes client: "NewEnvClient env (world st) = None"
    and listing: "ContainerList env (world st) (service_filters service) = Inr (c # cs)"
    and consul: "NewConsulClient env (world st) = None"
    and kv: "KVList env (world st) (service_path env service) = Inr kvs"
    and dec: "ConsulKVsToJSON env kvs = Inr configMap"
    and mar: "json_Marshal env configMap = Inr configString"
    and get: "jsonparser_Get env configString [''instances'', InstanceID env, ''services'', service] =
                (serviceConfig, dataType, None)"
    and target: "target = ''localhost:'' @ Itoa (unat (port_loop (c_Ports c) 0))"
    and dial: "grpc_Dial env (world st) target = None"
    and conf: "Configure env (world st) target serviceConfig = (None, w')"
  shows "\<exists>st2. configureService env service st = configure_loop env service cs st2 \<and>
           world st2 = w' \<and> HandlingServices st2 = HandlingServices st \<and>
           filter is_rpc (trace st2) = filter is_rpc (trace st) @ [EvDial target, EvConfigure target serviceConfig]"
proof -
  let ?st1 = "emit [EvKVList (service_path env service)]
                (emit [EvContainerList (service_filters service)]
                   (emit [CallConfigureService service] st))"
  let ?st2 = "emit [EvDial target, EvConfigure target serviceConfig]
                ((if dataType = NotExist then emit [EvLog ''invalid JSON''] ?st1 else ?st1)\<lparr>world := w'\<rparr>)"
  have "configureService env service st = configure_loop env service cs ?st2"
    using client listing consul kv dec mar get dial conf
    by (simp add: configureService_def Let_def target)
  moreover have "world ?st2 = w'" "HandlingServices ?st2 = HandlingServices st"
    "filter is_rpc (trace ?st2) = filter is_rpc (trace st) @ [EvDial target, EvConfigure target serviceConfig]"
    by simp_all
  ultimately show ?thesis by blast
qed

lemma digit_chars:
  "char_of (50::nat) = CHR ''2''" "char_of (51::nat) = CHR ''3''" "char_of (54::nat) = CHR ''6''"
  "char_of (55::nat) = CHR ''7''" "char_of (56::nat) = CHR ''8''"
  by code_simp+

lemma Itoa_sim_port: "Itoa 32768 = ''32768''"
  by (simp add: Itoa.simps digit_chars)

section \<open>Configuration is pushed after reconciliation\<close>




end
